theory Spec2Isabelle
  imports Main "HOL-Library.List_Lexorder"
begin

section \<open>Safe Browsing Guard: the managed block of the hosts file\<close>

text \<open>
  A shallow embedding of \<^verbatim>\<open>scripts/safe_browsing_guard/safe_browsing_guard.py\<close>.

  A Python \<^verbatim>\<open>str\<close> is a sequence of Unicode code points, so a string is a list of
  natural numbers; \<open>lit\<close> reads an ASCII literal of the source. The order of
  \<^verbatim>\<open>sorted\<close> on strings is the lexicographic order of the code points, which is the
  order of lists from \<open>List_Lexorder\<close>.
\<close>

subsection \<open>Strings\<close>

type_synonym pystr = "nat list"

definition lit :: "string \<Rightarrow> pystr" where
  "lit s = map of_char s"

definition LF :: nat where
  "LF = 10"

definition CR :: nat where
  "CR = 13"

definition TAB :: nat where
  "TAB = 9"

text \<open>
  \<^verbatim>\<open>str.isspace\<close> of one character, which decides what \<^verbatim>\<open>str.strip()\<close> removes:
  U+0009..U+000D, U+001C..U+0020, U+0085, U+00A0, U+1680, U+2000..U+200A, U+2028, U+2029,
  U+202F, U+205F and U+3000.
\<close>

definition is_space :: "nat \<Rightarrow> bool" where
  "is_space c \<longleftrightarrow>
     (9 \<le> c \<and> c \<le> 13) \<or> (28 \<le> c \<and> c \<le> 32) \<or> c = 133 \<or> c = 160 \<or> c = 5760 \<or>
     (8192 \<le> c \<and> c \<le> 8202) \<or> c = 8232 \<or> c = 8233 \<or> c = 8239 \<or> c = 8287 \<or> c = 12288"

definition py_strip :: "pystr \<Rightarrow> pystr" where
  "py_strip s = rev (dropWhile is_space (rev (dropWhile is_space s)))"

definition endswith_nl :: "pystr \<Rightarrow> bool" where
  "endswith_nl s \<longleftrightarrow> s \<noteq> [] \<and> last s = LF"

subsection \<open>Constants of the module\<close>

definition SAFESEARCH_IP :: pystr where
  "SAFESEARCH_IP = lit ''216.239.38.120''"

definition SAFESEARCH_DOMAINS :: "pystr list" where
  "SAFESEARCH_DOMAINS =
     [lit ''google.com'', lit ''www.google.com'', lit ''www.google.co.uk'',
      lit ''www.google.ca'', lit ''youtube.com'', lit ''www.youtube.com'']"

definition BEGIN_MARKER :: pystr where
  "BEGIN_MARKER = lit ''# >>> SafeBrowsingGuard begin''"

definition END_MARKER :: pystr where
  "END_MARKER = lit ''# <<< SafeBrowsingGuard end''"

subsection \<open>\<^verbatim>\<open>strip_managed_block\<close>\<close>

text \<open>
  The loop of \<^verbatim>\<open>strip_managed_block\<close> with its two variables, the list \<open>cleaned\<close> and the
  flag \<open>skipping\<close>; each \<^verbatim>\<open>continue\<close> is a recursive call that keeps \<open>cleaned\<close>.
\<close>

fun strip_loop :: "pystr list \<Rightarrow> bool \<Rightarrow> pystr list \<Rightarrow> pystr list" where
  "strip_loop cleaned skipping [] = cleaned"
| "strip_loop cleaned skipping (line # lines) =
     (if py_strip line = BEGIN_MARKER then strip_loop cleaned True lines
      else if py_strip line = END_MARKER then strip_loop cleaned False lines
      else if \<not> skipping then strip_loop (cleaned @ [line]) skipping lines
      else strip_loop cleaned skipping lines)"

definition strip_managed_block :: "pystr list \<Rightarrow> pystr list" where
  "strip_managed_block lines = strip_loop [] False lines"

subsection \<open>\<^verbatim>\<open>render_block\<close>\<close>

text \<open>
  \<^verbatim>\<open>sorted(set(domains))\<close>: the distinct elements in ascending order. The order in which
  a Python set is iterated does not matter, since sorting distinct strings has one result.
\<close>

definition sorted_set :: "pystr list \<Rightarrow> pystr list" where
  "sorted_set domains = sorted_list_of_set (set domains)"

definition safesearch_line :: "pystr \<Rightarrow> pystr" where
  "safesearch_line d = SAFESEARCH_IP @ [TAB] @ d"

definition custom_line :: "pystr \<Rightarrow> pystr" where
  "custom_line d = lit ''127.0.0.1'' @ [TAB] @ d"

definition render_block :: "pystr list \<Rightarrow> pystr list" where
  "render_block domains =
     (let block = [BEGIN_MARKER];
          block = block @ [lit ''# SafeSearch mappings -> '' @ SAFESEARCH_IP];
          block = block @ map safesearch_line SAFESEARCH_DOMAINS;
          block = (if domains \<noteq> []
                   then block @ [lit ''# Custom blocked domains -> 127.0.0.1'']
                              @ map custom_line (sorted_set domains)
                   else block);
          block = block @ [END_MARKER]
      in map (\<lambda>line. line @ [LF]) block)"

subsection \<open>Text files\<close>

text \<open>
  The two files the program touches are the hosts file and the backup file
  \<^verbatim>\<open>hosts.backup\<close>; a file that does not exist is \<open>None\<close>. A file holds its decoded
  text (the program opens the hosts file with \<^verbatim>\<open>encoding="utf-8"\<close>).

  Both \<^verbatim>\<open>open\<close> calls leave \<^verbatim>\<open>newline\<close> at its default. Reading then turns each of
  \<^verbatim>\<open>\r\n\<close> and \<^verbatim>\<open>\r\<close> into \<^verbatim>\<open>\n\<close>, and \<^verbatim>\<open>readlines\<close> cuts the text after each
  \<^verbatim>\<open>\n\<close>; writing turns each \<^verbatim>\<open>\n\<close> into \<^verbatim>\<open>os.linesep\<close>, which depends on the
  platform, as \<^verbatim>\<open>hosts_path\<close> and \<^verbatim>\<open>flush_dns\<close> do.
\<close>

datatype platform = Posix | Windows

datatype error = FileNotFoundError | OSError

record fsys =
  hosts :: "pystr option"
  backup :: "pystr option"

definition linesep :: "platform \<Rightarrow> pystr" where
  "linesep pf = (case pf of Posix \<Rightarrow> [LF] | Windows \<Rightarrow> [CR, LF])"

definition write_text :: "platform \<Rightarrow> pystr \<Rightarrow> pystr" where
  "write_text pf s = concat (map (\<lambda>c. if c = LF then linesep pf else [c]) s)"

fun universal_newlines :: "pystr \<Rightarrow> pystr" where
  "universal_newlines [] = []"
| "universal_newlines [c] = (if c = CR then [LF] else [c])"
| "universal_newlines (c # d # cs) =
     (if c = CR \<and> d = LF then LF # universal_newlines cs
      else if c = CR then LF # universal_newlines (d # cs)
      else c # universal_newlines (d # cs))"

text \<open>Cutting a text into lines, each with its newline; the last line may have none.\<close>

fun split_lines :: "pystr \<Rightarrow> pystr list" where
  "split_lines [] = []"
| "split_lines (c # cs) =
     (if c = LF then [LF] # split_lines cs
      else (case split_lines cs of [] \<Rightarrow> [[c]] | l # ls \<Rightarrow> (c # l) # ls))"

definition readlines :: "pystr \<Rightarrow> pystr list" where
  "readlines raw = split_lines (universal_newlines raw)"

subsection \<open>\<^verbatim>\<open>ensure_backup\<close>, \<^verbatim>\<open>apply_changes\<close>, \<^verbatim>\<open>restore_backup\<close>\<close>

text \<open>\<^verbatim>\<open>shutil.copy2\<close> raises \<^verbatim>\<open>FileNotFoundError\<close> when its source does not exist.\<close>

definition ensure_backup :: "fsys \<Rightarrow> error + fsys" where
  "ensure_backup fs =
     (case backup fs of
        Some b \<Rightarrow> Inr fs
      | None \<Rightarrow> (case hosts fs of
                   None \<Rightarrow> Inl FileNotFoundError
                 | Some h \<Rightarrow> Inr (fs\<lparr>backup := Some h\<rparr>)))"

text \<open>
  The write phase of \<^verbatim>\<open>apply_changes\<close>, in the order of its three statements: what
  \<^verbatim>\<open>f.writelines(unmanaged)\<close>, the conditional \<^verbatim>\<open>f.write("\n")\<close> and
  \<^verbatim>\<open>f.writelines(managed)\<close> send to the file that \<^verbatim>\<open>open("w")\<close> has emptied.
\<close>

definition written :: "pystr list \<Rightarrow> pystr list \<Rightarrow> pystr" where
  "written unmanaged managed =
     concat unmanaged
     @ (if unmanaged \<noteq> [] \<and> \<not> endswith_nl (last unmanaged) then [LF] else [])
     @ concat managed"

text \<open>
  \<^verbatim>\<open>apply_changes\<close>. What it prints, and \<^verbatim>\<open>flush_dns\<close>, which touches neither file,
  are left out.
\<close>

definition apply_changes :: "platform \<Rightarrow> fsys \<Rightarrow> pystr list \<Rightarrow> error + fsys" where
  "apply_changes pf fs domains =
     (case ensure_backup fs of
        Inl e \<Rightarrow> Inl e
      | Inr fs1 \<Rightarrow>
          (case hosts fs1 of
             None \<Rightarrow> Inl FileNotFoundError
           | Some raw \<Rightarrow>
               (let original_lines = readlines raw;
                    unmanaged = strip_managed_block original_lines;
                    managed = render_block domains
                in Inr (fs1\<lparr>hosts := Some (write_text pf (written unmanaged managed))\<rparr>))))"


text \<open>
  \<^verbatim>\<open>restore_backup\<close>, with the line it prints itself (the output of \<^verbatim>\<open>flush_dns\<close>, called
  only after a copy, is left out).
\<close>

definition restore_backup :: "fsys \<Rightarrow> pystr \<times> fsys" where
  "restore_backup fs =
     (case backup fs of
        None \<Rightarrow> (lit ''No backup found.'', fs)
      | Some b \<Rightarrow>
          (lit ''Backup restored. DNS cache refreshed where supported.'',
           fs\<lparr>hosts := Some b\<rparr>))"

subsection \<open>Notions used in the statements\<close>

text \<open>A line is a sentinel line when its trimmed form is one of the two markers.\<close>

definition is_marker :: "pystr \<Rightarrow> bool" where
  "is_marker l \<longleftrightarrow> py_strip l = BEGIN_MARKER \<or> py_strip l = END_MARKER"





section \<open>Properties of the parts\<close>

subsection \<open>The scan of \<open>strip_managed_block\<close>, trimming, lines and newlines\<close>

lemma markers_differ: "BEGIN_MARKER \<noteq> END_MARKER"
  by (simp add: BEGIN_MARKER_def END_MARKER_def lit_def)

lemma strip_loop_acc: "strip_loop cleaned sk lines = cleaned @ strip_loop [] sk lines"
proof (induction lines arbitrary: cleaned sk)
  case Nil
  show ?case by simp
next
  case (Cons line lines)
  have keep: "strip_loop (cleaned @ [line]) s lines = cleaned @ strip_loop [line] s lines" for s
    using Cons.IH [of "cleaned @ [line]" s] Cons.IH [of "[line]" s] by simp
  show ?case
    using Cons.IH [of cleaned True] Cons.IH [of cleaned False] Cons.IH [of cleaned sk] keep
    by simp
qed


lemma strip_loop_end:
  "py_strip e = END_MARKER \<Longrightarrow> strip_loop [] sk (e # rest) = strip_loop [] False rest"
  using markers_differ by simp

lemma strip_loop_keep:
  "\<not> is_marker l \<Longrightarrow> strip_loop [] False (l # rest) = l # strip_loop [] False rest"
  using strip_loop_acc [of "[l]" False rest] by (simp add: is_marker_def)


lemma strip_loop_plain:
  "\<forall>l\<in>set A. \<not> is_marker l \<Longrightarrow> strip_loop [] False (A @ rest) = A @ strip_loop [] False rest"
  by (induction A) (simp_all add: strip_loop_keep del: strip_loop.simps)


lemma strip_loop_Cons_cases:
  "strip_loop [] sk (l # rest) = strip_loop [] True rest
   \<or> strip_loop [] sk (l # rest) = strip_loop [] False rest
   \<or> (\<not> is_marker l \<and> strip_loop [] sk (l # rest) = l # strip_loop [] sk rest)
   \<or> strip_loop [] sk (l # rest) = strip_loop [] sk rest"
  using strip_loop_acc [of "[l]" _ rest] by (simp add: is_marker_def)

lemma strip_loop_member:
  "l \<in> set (strip_loop [] sk lines) \<Longrightarrow> \<not> is_marker l \<and> l \<in> set lines"
proof (induction lines arbitrary: sk)
  case Nil
  then show ?case by simp
next
  case (Cons x xs)
  from strip_loop_Cons_cases [of sk x xs] Cons show ?case
    by (elim disjE) auto
qed








lemma split_lines_Nil: "split_lines s = [] \<longleftrightarrow> s = []"
  by (cases s) (auto split: list.splits)





lemma universal_newlines_write_text:
  "CR \<notin> set s \<Longrightarrow> universal_newlines (write_text pf s) = s"
proof (induction s)
  case Nil
  show ?case by (simp add: write_text_def)
next
  case (Cons c s)
  then have IH: "universal_newlines (write_text pf s) = s" and c: "c \<noteq> CR" by auto
  have step: "write_text pf (c # s) = (if c = LF then linesep pf else [c]) @ write_text pf s"
    by (simp add: write_text_def)
  show ?case
  proof (cases "c = LF")
    case True
    then show ?thesis using IH step
      by (cases pf; cases "write_text pf s") (auto simp: linesep_def CR_def LF_def)
  next
    case False
    then show ?thesis using IH step c
      by (cases "write_text pf s") auto
  qed
qed

subsection \<open>The rendered block\<close>



















subsection \<open>The file after \<open>apply_changes\<close>, read again\<close>














lemma apply_changes_eq:
  "hosts fs = Some raw \<Longrightarrow>
   apply_changes pf fs domains =
     Inr (fs\<lparr>hosts := Some (write_text pf
                (written (strip_managed_block (readlines raw)) (render_block domains))),
              backup := Some (case backup fs of None \<Rightarrow> raw | Some b \<Rightarrow> b)\<rparr>)"
  by (cases "backup fs") (simp_all add: apply_changes_def ensure_backup_def)








section \<open>Rendering\<close>

text \<open>
  C8. Rendering the empty domain list gives the begin sentinel, the safe-search comment,
  the six fixed safe-search mappings in the order of \<open>SAFESEARCH_DOMAINS\<close> and the end
  sentinel, each ended by a newline, and nothing else: neither the comment line
  "Custom blocked domains" nor any line for address 127.0.0.1.
\<close>

theorem render_block_empty:
  "render_block [] =
     [lit ''# >>> SafeBrowsingGuard begin'' @ [LF],
      lit ''# SafeSearch mappings -> 216.239.38.120'' @ [LF],
      lit ''216.239.38.120'' @ [TAB] @ lit ''google.com'' @ [LF],
      lit ''216.239.38.120'' @ [TAB] @ lit ''www.google.com'' @ [LF],
      lit ''216.239.38.120'' @ [TAB] @ lit ''www.google.co.uk'' @ [LF],
      lit ''216.239.38.120'' @ [TAB] @ lit ''www.google.ca'' @ [LF],
      lit ''216.239.38.120'' @ [TAB] @ lit ''youtube.com'' @ [LF],
      lit ''216.239.38.120'' @ [TAB] @ lit ''www.youtube.com'' @ [LF],
      lit ''# <<< SafeBrowsingGuard end'' @ [LF]]"
  by (simp add: render_block_def BEGIN_MARKER_def END_MARKER_def SAFESEARCH_IP_def
      SAFESEARCH_DOMAINS_def safesearch_line_def lit_def)

text \<open>
  C5. For a non-empty domain list the custom section of the rendered block is the comment
  line followed by one line per element of \<open>sorted_set domains\<close>, each the block address
  127.0.0.1, a TAB, the domain and a newline; \<open>sorted_set domains\<close> is in ascending
  lexicographic order, has no duplicates and has exactly the elements of the domain list.
  In particular the list b.com, a.com, a.com renders a.com once, before b.com.
\<close>

theorem render_block_sorted_dedup:
  "(domains \<noteq> [] \<longrightarrow>
      render_block domains =
        [BEGIN_MARKER @ [LF], lit ''# SafeSearch mappings -> '' @ SAFESEARCH_IP @ [LF]]
        @ map (\<lambda>d. SAFESEARCH_IP @ [TAB] @ d @ [LF]) SAFESEARCH_DOMAINS
        @ [lit ''# Custom blocked domains -> 127.0.0.1'' @ [LF]]
        @ map (\<lambda>d. lit ''127.0.0.1'' @ [TAB] @ d @ [LF]) (sorted_set domains)
        @ [END_MARKER @ [LF]]
      \<and> sorted (sorted_set domains) \<and> distinct (sorted_set domains)
      \<and> set (sorted_set domains) = set domains)
   \<and> render_block [lit ''b.com'', lit ''a.com'', lit ''a.com''] =
        [lit ''# >>> SafeBrowsingGuard begin'' @ [LF],
         lit ''# SafeSearch mappings -> 216.239.38.120'' @ [LF],
         lit ''216.239.38.120'' @ [TAB] @ lit ''google.com'' @ [LF],
         lit ''216.239.38.120'' @ [TAB] @ lit ''www.google.com'' @ [LF],
         lit ''216.239.38.120'' @ [TAB] @ lit ''www.google.co.uk'' @ [LF],
         lit ''216.239.38.120'' @ [TAB] @ lit ''www.google.ca'' @ [LF],
         lit ''216.239.38.120'' @ [TAB] @ lit ''youtube.com'' @ [LF],
         lit ''216.239.38.120'' @ [TAB] @ lit ''www.youtube.com'' @ [LF],
         lit ''# Custom blocked domains -> 127.0.0.1'' @ [LF],
         lit ''127.0.0.1'' @ [TAB] @ lit ''a.com'' @ [LF],
         lit ''127.0.0.1'' @ [TAB] @ lit ''b.com'' @ [LF],
         lit ''# <<< SafeBrowsingGuard end'' @ [LF]]"
proof (intro conjI impI)
  assume "domains \<noteq> []"
  then show "render_block domains =
        [BEGIN_MARKER @ [LF], lit ''# SafeSearch mappings -> '' @ SAFESEARCH_IP @ [LF]]
        @ map (\<lambda>d. SAFESEARCH_IP @ [TAB] @ d @ [LF]) SAFESEARCH_DOMAINS
        @ [lit ''# Custom blocked domains -> 127.0.0.1'' @ [LF]]
        @ map (\<lambda>d. lit ''127.0.0.1'' @ [TAB] @ d @ [LF]) (sorted_set domains)
        @ [END_MARKER @ [LF]]"
    by (simp add: render_block_def safesearch_line_def custom_line_def)
next
  show "sorted (sorted_set domains)" by (simp add: sorted_set_def)
  show "distinct (sorted_set domains)" by (simp add: sorted_set_def)
  show "set (sorted_set domains) = set domains" by (simp add: sorted_set_def)
next
  have s: "sorted_set [lit ''b.com'', lit ''a.com'', lit ''a.com'']
           = [lit ''a.com'', lit ''b.com'']"
    by code_simp
  show "render_block [lit ''b.com'', lit ''a.com'', lit ''a.com''] =
        [lit ''# >>> SafeBrowsingGuard begin'' @ [LF],
         lit ''# SafeSearch mappings -> 216.239.38.120'' @ [LF],
         lit ''216.239.38.120'' @ [TAB] @ lit ''google.com'' @ [LF],
         lit ''216.239.38.120'' @ [TAB] @ lit ''www.google.com'' @ [LF],
         lit ''216.239.38.120'' @ [TAB] @ lit ''www.google.co.uk'' @ [LF],
         lit ''216.239.38.120'' @ [TAB] @ lit ''www.google.ca'' @ [LF],
         lit ''216.239.38.120'' @ [TAB] @ lit ''youtube.com'' @ [LF],
         lit ''216.239.38.120'' @ [TAB] @ lit ''www.youtube.com'' @ [LF],
         lit ''# Custom blocked domains -> 127.0.0.1'' @ [LF],
         lit ''127.0.0.1'' @ [TAB] @ lit ''a.com'' @ [LF],
         lit ''127.0.0.1'' @ [TAB] @ lit ''b.com'' @ [LF],
         lit ''# <<< SafeBrowsingGuard end'' @ [LF]]"
    unfolding render_block_def s
    by (simp add: BEGIN_MARKER_def END_MARKER_def SAFESEARCH_IP_def
      SAFESEARCH_DOMAINS_def safesearch_line_def custom_line_def lit_def)
qed

theorem render_block_sorted_dedup_witness:
  "[lit ''zeta.org'', lit ''alpha.org'', lit ''zeta.org'', lit ''Alpha.org''] \<noteq> []
   \<and> render_block [lit ''zeta.org'', lit ''alpha.org'', lit ''zeta.org'', lit ''Alpha.org''] =
        [BEGIN_MARKER @ [LF], lit ''# SafeSearch mappings -> '' @ SAFESEARCH_IP @ [LF]]
        @ map (\<lambda>d. SAFESEARCH_IP @ [TAB] @ d @ [LF]) SAFESEARCH_DOMAINS
        @ [lit ''# Custom blocked domains -> 127.0.0.1'' @ [LF],
           lit ''127.0.0.1'' @ [TAB] @ lit ''Alpha.org'' @ [LF],
           lit ''127.0.0.1'' @ [TAB] @ lit ''alpha.org'' @ [LF],
           lit ''127.0.0.1'' @ [TAB] @ lit ''zeta.org'' @ [LF],
           END_MARKER @ [LF]]"
proof -
  have s: "sorted_set [lit ''zeta.org'', lit ''alpha.org'', lit ''zeta.org'', lit ''Alpha.org'']
           = [lit ''Alpha.org'', lit ''alpha.org'', lit ''zeta.org'']"
    by code_simp
  show ?thesis
    using render_block_sorted_dedup
      [of "[lit ''zeta.org'', lit ''alpha.org'', lit ''zeta.org'', lit ''Alpha.org'']"]
    unfolding s by simp
qed

section \<open>Backup and restore\<close>

text \<open>
  C6. \<open>ensure_backup\<close> copies the hosts file to the backup path when there is no backup,
  and changes nothing when there is one. After a first successful call, a second call
  changes nothing, whatever the hosts file has become in between; and \<open>apply_changes\<close>,
  which calls \<open>ensure_backup\<close> first, leaves an existing backup as it is.
\<close>

theorem ensure_backup_write_once:
  "(backup fs = None \<and> hosts fs = Some h \<longrightarrow> ensure_backup fs = Inr (fs\<lparr>backup := Some h\<rparr>))
   \<and> (backup fs = Some b \<longrightarrow> ensure_backup fs = Inr fs)
   \<and> (ensure_backup fs = Inr fs1 \<longrightarrow>
        (\<forall>h'. ensure_backup (fs1\<lparr>hosts := h'\<rparr>) = Inr (fs1\<lparr>hosts := h'\<rparr>)))
   \<and> (backup fs = Some b \<and> apply_changes pf fs domains = Inr fs2 \<longrightarrow> backup fs2 = Some b)"
  by (auto simp: ensure_backup_def apply_changes_def Let_def split: option.splits)

theorem ensure_backup_write_once_witness:
  "ensure_backup \<lparr>hosts = Some (lit ''127.0.0.1 localhost'' @ [LF]), backup = None\<rparr>
     = Inr \<lparr>hosts = Some (lit ''127.0.0.1 localhost'' @ [LF]),
            backup = Some (lit ''127.0.0.1 localhost'' @ [LF])\<rparr>
   \<and> ensure_backup \<lparr>hosts = Some (lit ''10.0.0.1 printer'' @ [LF]),
                     backup = Some (lit ''127.0.0.1 localhost'' @ [LF])\<rparr>
     = Inr \<lparr>hosts = Some (lit ''10.0.0.1 printer'' @ [LF]),
            backup = Some (lit ''127.0.0.1 localhost'' @ [LF])\<rparr>"
proof -
  let ?h = "lit ''127.0.0.1 localhost'' @ [LF]"
  let ?fs = "\<lparr>hosts = Some ?h, backup = None\<rparr>"
  have first: "ensure_backup ?fs = Inr (?fs\<lparr>backup := Some ?h\<rparr>)"
    using ensure_backup_write_once [of ?fs ?h] by simp
  have "ensure_backup ((?fs\<lparr>backup := Some ?h\<rparr>)\<lparr>hosts := Some (lit ''10.0.0.1 printer'' @ [LF])\<rparr>)
        = Inr ((?fs\<lparr>backup := Some ?h\<rparr>)\<lparr>hosts := Some (lit ''10.0.0.1 printer'' @ [LF])\<rparr>)"
    using ensure_backup_write_once [of ?fs ?h _ "?fs\<lparr>backup := Some ?h\<rparr>"] first by blast
  with first show ?thesis by simp
qed

text \<open>
  C7. Without a backup file, \<open>restore_backup\<close> returns normally: it prints
  "No backup found." and leaves both files as they are.
\<close>

theorem restore_backup_no_backup:
  "backup fs = None \<Longrightarrow> restore_backup fs = (lit ''No backup found.'', fs)"
  by (simp add: restore_backup_def)

theorem restore_backup_no_backup_witness:
  "backup \<lparr>hosts = Some (lit ''127.0.0.1 localhost'' @ [LF]), backup = None\<rparr> = None
   \<and> restore_backup \<lparr>hosts = Some (lit ''127.0.0.1 localhost'' @ [LF]), backup = None\<rparr>
     = (lit ''No backup found.'',
        \<lparr>hosts = Some (lit ''127.0.0.1 localhost'' @ [LF]), backup = None\<rparr>)"
  using restore_backup_no_backup
    [of "\<lparr>hosts = Some (lit ''127.0.0.1 localhost'' @ [LF]), backup = None\<rparr>"]
  by simp

section \<open>The patcher\<close>

subsection \<open>Evaluation on concrete files\<close>

lemma write_text_Posix: "write_text Posix s = s"
  by (induction s) (simp_all add: write_text_def linesep_def)

lemma sorted_set_single: "sorted_set [d] = [d]"
  by (simp add: sorted_set_def)

lemmas eval_defs = readlines_def strip_managed_block_def py_strip_def is_space_def
  BEGIN_MARKER_def END_MARKER_def SAFESEARCH_IP_def SAFESEARCH_DOMAINS_def
  safesearch_line_def custom_line_def render_block_def sorted_set_single
  written_def endswith_nl_def write_text_Posix lit_def LF_def CR_def TAB_def Let_def

lemmas file_defs = readlines_def strip_managed_block_def py_strip_def is_space_def
  BEGIN_MARKER_def END_MARKER_def written_def endswith_nl_def write_text_Posix
  lit_def LF_def CR_def TAB_def

subsection \<open>Idempotence\<close>




subsection \<open>One block, also after an unterminated one\<close>




subsection \<open>Lines that are not managed\<close>




lemma strip_managed_block_stray_end:
  assumes A: "\<forall>l\<in>set A. \<not> is_marker l" and C: "\<forall>l\<in>set C. \<not> is_marker l"
      and e: "py_strip e = END_MARKER"
  shows "strip_managed_block (A @ [e] @ C) = A @ C"
proof -
  have "strip_loop [] False (A @ [e] @ C) = A @ strip_loop [] False ([e] @ C)"
    using A by (rule strip_loop_plain)
  also have "strip_loop [] False ([e] @ C) = strip_loop [] False (C @ [])"
    using e markers_differ by simp
  also have "\<dots> = C @ strip_loop [] False []"
    using C by (rule strip_loop_plain)
  finally show ?thesis by (simp add: strip_managed_block_def)
qed




text \<open>
  C10. A line whose trimmed form is the end sentinel is dropped by the scan whatever the
  skip state is, and the scan goes on with the skip state off. No line that
  \<open>strip_managed_block\<close> returns has a trimmed form equal to a sentinel. With such a line
  between lines \<open>A\<close> and \<open>C\<close> that are no sentinel lines, \<open>strip_managed_block\<close> returns
  the lines of \<open>A\<close> and \<open>C\<close>, and \<open>apply_changes\<close> on a file with these lines writes the
  lines of \<open>A\<close> and \<open>C\<close> and the rendered block: the stray line does not survive.
\<close>

theorem strip_drops_end_sentinel:
  "(py_strip e = END_MARKER \<longrightarrow>
      strip_loop cleaned skipping (e # rest) = strip_loop cleaned False rest)
   \<and> (\<forall>l\<in>set (strip_managed_block lines).
         py_strip l \<noteq> BEGIN_MARKER \<and> py_strip l \<noteq> END_MARKER)
   \<and> (py_strip e = END_MARKER
       \<and> (\<forall>l\<in>set (A @ C). py_strip l \<noteq> BEGIN_MARKER \<and> py_strip l \<noteq> END_MARKER)
      \<longrightarrow> strip_managed_block (A @ [e] @ C) = A @ C)
   \<and> (hosts fs = Some raw \<and> readlines raw = A @ [e] @ C \<and> py_strip e = END_MARKER
       \<and> (\<forall>l\<in>set (A @ C). py_strip l \<noteq> BEGIN_MARKER \<and> py_strip l \<noteq> END_MARKER)
      \<longrightarrow> apply_changes pf fs domains =
            Inr (fs\<lparr>hosts := Some (write_text pf
                    (concat (A @ C)
                     @ (if A @ C \<noteq> [] \<and> \<not> endswith_nl (last (A @ C)) then [LF] else [])
                     @ concat (render_block domains))),
                   backup := Some (case backup fs of None \<Rightarrow> raw | Some b \<Rightarrow> b)\<rparr>))"
proof (intro conjI impI ballI)
  assume "py_strip e = END_MARKER"
  then show "strip_loop cleaned skipping (e # rest) = strip_loop cleaned False rest"
    using markers_differ by simp
next
  fix l assume "l \<in> set (strip_managed_block lines)"
  then have "\<not> is_marker l"
    using strip_loop_member [of l False lines] by (simp add: strip_managed_block_def)
  then show "py_strip l \<noteq> BEGIN_MARKER" "py_strip l \<noteq> END_MARKER"
    by (simp_all add: is_marker_def)
next
  assume "py_strip e = END_MARKER
       \<and> (\<forall>l\<in>set (A @ C). py_strip l \<noteq> BEGIN_MARKER \<and> py_strip l \<noteq> END_MARKER)"
  then show "strip_managed_block (A @ [e] @ C) = A @ C"
    by (intro strip_managed_block_stray_end) (auto simp: is_marker_def)
next
  assume a: "hosts fs = Some raw \<and> readlines raw = A @ [e] @ C \<and> py_strip e = END_MARKER
       \<and> (\<forall>l\<in>set (A @ C). py_strip l \<noteq> BEGIN_MARKER \<and> py_strip l \<noteq> END_MARKER)"
  then have "strip_managed_block (A @ [e] @ C) = A @ C"
    by (intro strip_managed_block_stray_end) (auto simp: is_marker_def)
  with a have "strip_managed_block (readlines raw) = A @ C" by simp
  with a show "apply_changes pf fs domains =
            Inr (fs\<lparr>hosts := Some (write_text pf
                    (concat (A @ C)
                     @ (if A @ C \<noteq> [] \<and> \<not> endswith_nl (last (A @ C)) then [LF] else [])
                     @ concat (render_block domains))),
                   backup := Some (case backup fs of None \<Rightarrow> raw | Some b \<Rightarrow> b)\<rparr>)"
    by (simp only: apply_changes_eq written_def)
qed

theorem strip_drops_end_sentinel_witness:
  "strip_managed_block
     [lit ''192.168.1.1 router'' @ [LF],
      lit ''  # <<< SafeBrowsingGuard end '' @ [LF],
      lit ''192.168.1.2 tv'' @ [LF]]
   = [lit ''192.168.1.1 router'' @ [LF], lit ''192.168.1.2 tv'' @ [LF]]
   \<and> apply_changes Posix
       \<lparr>hosts = Some (lit ''192.168.1.1 router'' @ [LF]
                      @ lit ''  # <<< SafeBrowsingGuard end '' @ [LF]
                      @ lit ''192.168.1.2 tv'' @ [LF]),
        backup = None\<rparr>
       []
     = Inr \<lparr>hosts = Some (write_text Posix
                      (lit ''192.168.1.1 router'' @ [LF] @ lit ''192.168.1.2 tv'' @ [LF]
                       @ concat (render_block []))),
            backup = Some (lit ''192.168.1.1 router'' @ [LF]
                           @ lit ''  # <<< SafeBrowsingGuard end '' @ [LF]
                           @ lit ''192.168.1.2 tv'' @ [LF])\<rparr>"
proof -
  let ?A = "[lit ''192.168.1.1 router'' @ [LF]]"
  let ?e = "lit ''  # <<< SafeBrowsingGuard end '' @ [LF]"
  let ?C = "[lit ''192.168.1.2 tv'' @ [LF]]"
  let ?raw = "lit ''192.168.1.1 router'' @ [LF]
              @ lit ''  # <<< SafeBrowsingGuard end '' @ [LF]
              @ lit ''192.168.1.2 tv'' @ [LF]"
  let ?fs = "\<lparr>hosts = Some ?raw, backup = None\<rparr>"
  have r: "readlines ?raw = ?A @ [?e] @ ?C"
    by (simp add: file_defs)
  have m: "py_strip ?e = END_MARKER"
    "\<forall>l\<in>set (?A @ ?C). py_strip l \<noteq> BEGIN_MARKER \<and> py_strip l \<noteq> END_MARKER"
    by (simp_all add: file_defs)
  note inst = strip_drops_end_sentinel
    [where e = ?e and A = ?A and C = ?C and fs = ?fs and raw = ?raw and pf = Posix
       and domains = "[]" and cleaned = "[]" and skipping = False and rest = ?C
       and lines = "?A @ [?e] @ ?C"]
  have h: "hosts ?fs = Some ?raw"
    by simp
  have one: "strip_managed_block (?A @ [?e] @ ?C) = ?A @ ?C"
    using inst m by blast
  have two: "apply_changes Posix ?fs []
             = Inr (?fs\<lparr>hosts := Some (write_text Posix
                    (concat (?A @ ?C)
                     @ (if ?A @ ?C \<noteq> [] \<and> \<not> endswith_nl (last (?A @ ?C)) then [LF] else [])
                     @ concat (render_block []))),
                   backup := Some (case backup ?fs of None \<Rightarrow> ?raw | Some b \<Rightarrow> b)\<rparr>)"
    using inst h r m by blast
  from one two show ?thesis
    by (simp add: endswith_nl_def lit_def LF_def)
qed

subsection \<open>The scenario of one line and one domain\<close>

text \<open>
  C9. With the hosts file holding the one line "1.2.3.4 other.example" and its newline,
  and the domain list holding bad.com, \<open>apply_changes\<close> succeeds and writes that line
  followed by the begin sentinel, the safe-search comment, the six fixed mappings, the
  comment "# Custom blocked domains -> 127.0.0.1", the line of 127.0.0.1, a TAB and
  bad.com, and the end sentinel, each line ended by a newline. On Posix this text is the
  content of the file; on either platform it is what reading the file returns.
\<close>

theorem apply_changes_scenario:
  "let original = lit ''1.2.3.4 other.example'' @ [LF];
       expected =
          lit ''1.2.3.4 other.example'' @ [LF]
          @ lit ''# >>> SafeBrowsingGuard begin'' @ [LF]
          @ lit ''# SafeSearch mappings -> 216.239.38.120'' @ [LF]
          @ lit ''216.239.38.120'' @ [TAB] @ lit ''google.com'' @ [LF]
          @ lit ''216.239.38.120'' @ [TAB] @ lit ''www.google.com'' @ [LF]
          @ lit ''216.239.38.120'' @ [TAB] @ lit ''www.google.co.uk'' @ [LF]
          @ lit ''216.239.38.120'' @ [TAB] @ lit ''www.google.ca'' @ [LF]
          @ lit ''216.239.38.120'' @ [TAB] @ lit ''youtube.com'' @ [LF]
          @ lit ''216.239.38.120'' @ [TAB] @ lit ''www.youtube.com'' @ [LF]
          @ lit ''# Custom blocked domains -> 127.0.0.1'' @ [LF]
          @ lit ''127.0.0.1'' @ [TAB] @ lit ''bad.com'' @ [LF]
          @ lit ''# <<< SafeBrowsingGuard end'' @ [LF]
   in apply_changes pf \<lparr>hosts = Some original, backup = bk\<rparr> [lit ''bad.com'']
        = Inr \<lparr>hosts = Some (write_text pf expected),
               backup = Some (case bk of None \<Rightarrow> original | Some b \<Rightarrow> b)\<rparr>
      \<and> write_text Posix expected = expected
      \<and> universal_newlines (write_text pf expected) = expected"
proof -
  let ?original = "lit ''1.2.3.4 other.example'' @ [LF]"
  let ?expected = "lit ''1.2.3.4 other.example'' @ [LF]
          @ lit ''# >>> SafeBrowsingGuard begin'' @ [LF]
          @ lit ''# SafeSearch mappings -> 216.239.38.120'' @ [LF]
          @ lit ''216.239.38.120'' @ [TAB] @ lit ''google.com'' @ [LF]
          @ lit ''216.239.38.120'' @ [TAB] @ lit ''www.google.com'' @ [LF]
          @ lit ''216.239.38.120'' @ [TAB] @ lit ''www.google.co.uk'' @ [LF]
          @ lit ''216.239.38.120'' @ [TAB] @ lit ''www.google.ca'' @ [LF]
          @ lit ''216.239.38.120'' @ [TAB] @ lit ''youtube.com'' @ [LF]
          @ lit ''216.239.38.120'' @ [TAB] @ lit ''www.youtube.com'' @ [LF]
          @ lit ''# Custom blocked domains -> 127.0.0.1'' @ [LF]
          @ lit ''127.0.0.1'' @ [TAB] @ lit ''bad.com'' @ [LF]
          @ lit ''# <<< SafeBrowsingGuard end'' @ [LF]"
  have w: "written (strip_managed_block (readlines ?original)) (render_block [lit ''bad.com''])
           = ?expected"
    by (simp add: eval_defs)
  have a: "apply_changes pf \<lparr>hosts = Some ?original, backup = bk\<rparr> [lit ''bad.com'']
        = Inr \<lparr>hosts = Some (write_text pf ?expected),
               backup = Some (case bk of None \<Rightarrow> ?original | Some b \<Rightarrow> b)\<rparr>"
    by (simp only: apply_changes_eq [of _ ?original] w fsys.simps)
  have "CR \<notin> set ?expected"
    by (simp add: lit_def LF_def TAB_def CR_def)
  then have u: "universal_newlines (write_text pf ?expected) = ?expected"
    by (rule universal_newlines_write_text)
  have p: "write_text Posix ?expected = ?expected"
    by (rule write_text_Posix)
  from a u p show ?thesis unfolding Let_def by blast
qed

subsection \<open>A write phase that fails\<close>




end
